theory Spec2Isabelle
  imports Main "HOL-Library.Sublist"
begin

section \<open>Python string primitives\<close>

text \<open>
  The program \<^verbatim>\<open>py2pddl/init.py\<close> is one function, \<^verbatim>\<open>init(filename)\<close>, that reads four
  answers with \<^verbatim>\<open>input\<close>, normalises them with \<^verbatim>\<open>str\<close> methods, renders a text template
  and writes it to a file. A Python string is modelled as a \<^typ>\<open>string\<close> whose characters
  are the code points U+0000 to U+00FF (Latin-1): \<^verbatim>\<open>CHR 0xE9\<close> is U+00E9. The whitespace
  set and the case tables below are Python's on these 256 code points, with one exception:
  the uppercase of U+00B5 (micro sign) and of U+00FF is U+039C and U+0178, outside this
  alphabet, so the tables leave these two characters unchanged, and the statements about
  uppercasing exclude them. Text with code points above U+00FF is outside the model.
\<close>

definition ascii_lowercase :: string where
  "ascii_lowercase = ''abcdefghijklmnopqrstuvwxyz''"

definition ascii_uppercase :: string where
  "ascii_uppercase = ''ABCDEFGHIJKLMNOPQRSTUVWXYZ''"

text \<open>
  The Latin-1 letters with a one-character case partner in Latin-1: U+00E0 to U+00FE
  without the division sign U+00F7, and U+00C0 to U+00DE without the multiplication sign
  U+00D7, in the same order.
\<close>

definition latin1_lowercase :: string where
  "latin1_lowercase =
     [CHR 0xE0, CHR 0xE1, CHR 0xE2, CHR 0xE3, CHR 0xE4, CHR 0xE5,
      CHR 0xE6, CHR 0xE7, CHR 0xE8, CHR 0xE9, CHR 0xEA, CHR 0xEB,
      CHR 0xEC, CHR 0xED, CHR 0xEE, CHR 0xEF, CHR 0xF0, CHR 0xF1,
      CHR 0xF2, CHR 0xF3, CHR 0xF4, CHR 0xF5, CHR 0xF6, CHR 0xF8,
      CHR 0xF9, CHR 0xFA, CHR 0xFB, CHR 0xFC, CHR 0xFD, CHR 0xFE]"

definition latin1_uppercase :: string where
  "latin1_uppercase =
     [CHR 0xC0, CHR 0xC1, CHR 0xC2, CHR 0xC3, CHR 0xC4, CHR 0xC5,
      CHR 0xC6, CHR 0xC7, CHR 0xC8, CHR 0xC9, CHR 0xCA, CHR 0xCB,
      CHR 0xCC, CHR 0xCD, CHR 0xCE, CHR 0xCF, CHR 0xD0, CHR 0xD1,
      CHR 0xD2, CHR 0xD3, CHR 0xD4, CHR 0xD5, CHR 0xD6, CHR 0xD8,
      CHR 0xD9, CHR 0xDA, CHR 0xDB, CHR 0xDC, CHR 0xDD, CHR 0xDE]"

definition lowercase_letters :: string where
  "lowercase_letters = ascii_lowercase @ latin1_lowercase"

definition uppercase_letters :: string where
  "uppercase_letters = ascii_uppercase @ latin1_uppercase"

text \<open>
  The cased characters (CPython's \<^verbatim>\<open>_PyUnicode_IsCased\<close>): the letters above and the five
  cased characters without a case partner in Latin-1, U+00AA, U+00B5, U+00BA, U+00DF
  (sharp s) and U+00FF.
\<close>

definition unpartnered_cased :: string where
  "unpartnered_cased = [CHR 0xAA, CHR 0xB5, CHR 0xBA, CHR 0xDF, CHR 0xFF]"

definition is_cased :: "char \<Rightarrow> bool" where
  "is_cased c = (c \<in> set lowercase_letters \<or> c \<in> set uppercase_letters
                 \<or> c \<in> set unpartnered_cased)"

text \<open>
  \<^verbatim>\<open>c.upper()\<close>, \<^verbatim>\<open>c.title()\<close> and \<^verbatim>\<open>c.lower()\<close> for a one-character string. The
  uppercase of the sharp s is the two characters \<^verbatim>\<open>SS\<close> and its title case is \<^verbatim>\<open>Ss\<close>;
  every other uppercase and title case is one character, and they are equal. Lowercasing
  maps one character to one character.
\<close>

definition char_upper :: "char \<Rightarrow> string" where
  "char_upper c =
     (if c = CHR 0xDF then ''SS''
      else case map_of (zip lowercase_letters uppercase_letters) c of
             Some u \<Rightarrow> [u] | None \<Rightarrow> [c])"

definition char_title :: "char \<Rightarrow> string" where
  "char_title c = (if c = CHR 0xDF then ''Ss'' else char_upper c)"

definition char_lower :: "char \<Rightarrow> char" where
  "char_lower c = (case map_of (zip uppercase_letters lowercase_letters) c of
                     Some l \<Rightarrow> l | None \<Rightarrow> c)"

text \<open>\<^verbatim>\<open>str.upper()\<close> and \<^verbatim>\<open>str.lower()\<close>.\<close>

definition str_upper :: "string \<Rightarrow> string" where
  "str_upper s = concat (map char_upper s)"

definition str_lower :: "string \<Rightarrow> string" where
  "str_lower s = map char_lower s"

text \<open>
  \<^verbatim>\<open>str.title()\<close>: CPython walks the string with a flag \<^verbatim>\<open>previous_is_cased\<close>, initially
  false; a character is lowercased when the flag is set and title-cased otherwise, and the
  flag becomes whether the character just read is cased.
\<close>

fun title_from :: "bool \<Rightarrow> string \<Rightarrow> string" where
  "title_from previous_is_cased [] = []"
| "title_from previous_is_cased (c # cs) =
     (if previous_is_cased then [char_lower c] else char_title c) @ title_from (is_cased c) cs"

definition str_title :: "string \<Rightarrow> string" where
  "str_title s = title_from False s"

text \<open>
  The characters that \<^verbatim>\<open>str.lstrip()\<close> and \<^verbatim>\<open>str.rstrip()\<close> remove when called without
  an argument: tab, line feed, vertical tab, form feed, carriage return, the four
  separators 0x1C to 0x1F, the space, the next-line control U+0085 and the no-break space
  U+00A0.
\<close>

definition is_space :: "char \<Rightarrow> bool" where
  "is_space c = (c \<in> set [CHR 0x09, CHR 0x0A, CHR 0x0B, CHR 0x0C, CHR 0x0D,
                            CHR 0x1C, CHR 0x1D, CHR 0x1E, CHR 0x1F, CHR 0x20,
                            CHR 0x85, CHR 0xA0])"

definition lstrip :: "string \<Rightarrow> string" where
  "lstrip s = dropWhile is_space s"

definition rstrip :: "string \<Rightarrow> string" where
  "rstrip s = rev (dropWhile is_space (rev s))"

text \<open>
  \<^verbatim>\<open>s.split(sep)\<close> for a one-character separator: every occurrence of the separator
  ends a field, so the result is never empty, \<^verbatim>\<open>"".split(" ")\<close> is \<^verbatim>\<open>[""]\<close> and two
  adjacent separators enclose an empty field.
\<close>

fun str_split :: "char \<Rightarrow> string \<Rightarrow> string list" where
  "str_split sep [] = [[]]"
| "str_split sep (c # cs) =
     (if c = sep then [] # str_split sep cs
      else (case str_split sep cs of
              [] \<Rightarrow> [[c]]
            | field # fields \<Rightarrow> (c # field) # fields))"

text \<open>\<^verbatim>\<open>sep.join(parts)\<close>.\<close>

fun str_join :: "string \<Rightarrow> string list \<Rightarrow> string" where
  "str_join sep [] = []"
| "str_join sep [part] = part"
| "str_join sep (part # parts) = part @ sep @ str_join sep parts"

section \<open>Normalising the four answers\<close>

datatype error = FileExistsError | EOFError | IndexError | OSError

text \<open>
  \<^verbatim>\<open>class_name = class_name.lstrip().rstrip()\<close> followed by
  \<^verbatim>\<open>class_name = class_name[0].upper() + class_name[1:]\<close>. Indexing the empty string at 0
  raises \<^verbatim>\<open>IndexError\<close>; the source has no check before it. \<^verbatim>\<open>class_name[0]\<close> is a
  one-character string, and its uppercase may be longer.
\<close>

definition class_name :: "string \<Rightarrow> error + string" where
  "class_name answer =
     (case rstrip (lstrip answer) of
        [] \<Rightarrow> Inl IndexError
      | c # cs \<Rightarrow> Inr (str_upper [c] @ cs))"

definition types :: "string \<Rightarrow> string list" where
  "types user_types = map str_title (str_split (CHR '' '') (rstrip (lstrip user_types)))"

definition predicates :: "string \<Rightarrow> string list" where
  "predicates user_predicates =
     map str_lower (str_split (CHR '' '') (rstrip (lstrip user_predicates)))"

definition actions :: "string \<Rightarrow> string list" where
  "actions user_actions = map str_lower (str_split (CHR '' '') (rstrip (lstrip user_actions)))"

section \<open>The template\<close>

text \<open>
  Each local variable of \<^verbatim>\<open>init\<close> that holds a piece of the output is a function of the
  values interpolated into it. A backslash directly after the opening triple quote removes
  the first line break of the literal; \<^verbatim>\<open>problem_header\<close> has none, so it starts with a
  line break.
\<close>

definition domain_header :: "string \<Rightarrow> string" where
  "domain_header cn =
     ''from py2pddl import Domain, create_type, create_objs\<newline>'' @
     ''from py2pddl import predicate, action, goal, init\<newline>'' @
     ''\<newline>'' @
     ''\<newline>'' @
     ''class '' @ cn @ ''Domain(Domain):\<newline>''"

definition type_block :: "string \<Rightarrow> string" where
  \<open>type_block typ = ''    '' @ typ @ '' = create_type("'' @ typ @ ''")\<newline>''\<close>

definition section_types :: "string list \<Rightarrow> string" where
  "section_types typs = str_join [] (map type_block typs)"

definition predicate_block :: "string \<Rightarrow> string" where
  \<open>predicate_block predicate =
     ''    @predicate(...)\<newline>'' @
     ''    def '' @ predicate @ ''(self):\<newline>'' @
     ''        """Complete the method signature"""\<newline>''\<close>

definition section_predicate :: "string list \<Rightarrow> string" where
  "section_predicate preds = str_join ''\<newline>'' (map predicate_block preds)"

definition action_block :: "string \<Rightarrow> string" where
  \<open>action_block action =
     ''    @action(...)\<newline>'' @
     ''    def '' @ action @ ''(self):\<newline>'' @
     ''        """This should be a pass"""\<newline>'' @
     ''        precond: list = None  # to fill in\<newline>'' @
     ''        effect: list = None  # to fill in\<newline>'' @
     ''        return precond, effect\<newline>''\<close>

definition section_action :: "string list \<Rightarrow> string" where
  "section_action acts = str_join ''\<newline>'' (map action_block acts)"

definition problem_header :: "string \<Rightarrow> string" where
  "problem_header cn =
     ''\<newline>'' @
     ''class '' @ cn @ ''Problem('' @ cn @ ''Domain):\<newline>''"

definition section_object :: string where
  \<open>section_object =
     ''    def __init__(self):\<newline>'' @
     ''        """To fill in"""\<newline>''\<close>

definition section_init :: string where
  "section_init =
     ''    @init\<newline>'' @
     ''    def init(self) -> list:\<newline>'' @
     ''        # To fill in\<newline>'' @
     ''        # Return type is a list\<newline>'' @
     ''        return None\<newline>''"

definition section_goal :: string where
  "section_goal =
     ''    @goal\<newline>'' @
     ''    def goal(self) -> list:\<newline>'' @
     ''        # To fill in\<newline>'' @
     ''        # Return type is a list\<newline>'' @
     ''        return None\<newline>''"

definition template :: "string \<Rightarrow> string list \<Rightarrow> string list \<Rightarrow> string list \<Rightarrow> string" where
  "template cn typs preds acts =
     domain_header cn @ ''\<newline>'' @ section_types typs @ ''\<newline>'' @
     section_predicate preds @ ''\<newline>'' @ section_action acts @
     ''\<newline>'' @ problem_header cn @ ''\<newline>'' @ section_object @
     ''\<newline>'' @ section_init @ ''\<newline>'' @ section_goal"

section \<open>The run: file system, terminal and the function \<^verbatim>\<open>init\<close>\<close>

text \<open>
  The world of one run: the regular files (path to content) and the directories of the
  file system, the lines still to be read from standard input, what has been written to
  standard output, and what the storage layer will do when the destination is opened and
  written: nothing wrong; fail in \<^verbatim>\<open>open\<close> (nothing is created); fail in \<^verbatim>\<open>f.write\<close>,
  after \<^verbatim>\<open>open(filename, "w")\<close> has created the file and so many characters have reached
  it (the \<^verbatim>\<open>print\<close> that follows is not run); or fail when the \<^verbatim>\<open>with\<close> block closes the
  file and its buffer is flushed, after so many characters have reached it (the \<^verbatim>\<open>print\<close>
  has run by then). The source has no handler, so every exception ends the run.
\<close>

datatype storage_fault = NoFault | OpenFails | WriteFails nat | CloseFails nat

record world =
  files :: "string \<rightharpoonup> string"
  dirs :: "string set"
  stdin :: "string list"
  stdout :: "string list"
  storage :: storage_fault

text \<open>\<^verbatim>\<open>Path(filename).exists()\<close>.\<close>

definition path_exists :: "world \<Rightarrow> string \<Rightarrow> bool" where
  "path_exists w p = (files w p \<noteq> None \<or> p \<in> dirs w)"

text \<open>
  \<^verbatim>\<open>input(prompt)\<close> writes the prompt, then reads one line (without its line break);
  at end of input it raises \<^verbatim>\<open>EOFError\<close>.
\<close>

definition input :: "string \<Rightarrow> world \<Rightarrow> (error + string) \<times> world" where
  "input prompt w =
     (let w' = w\<lparr>stdout := stdout w @ [prompt]\<rparr>
      in case stdin w' of
           [] \<Rightarrow> (Inl EOFError, w')
         | line # rest \<Rightarrow> (Inr line, w'\<lparr>stdin := rest\<rparr>))"

text \<open>
  \<^verbatim>\<open>with open(filename, "w", encoding="utf-8") as f: f.write(template); print(...)\<close>.
\<close>

definition write_template :: "string \<Rightarrow> string \<Rightarrow> world \<Rightarrow> (error + unit) \<times> world" where
  "write_template filename text w =
     (case storage w of
        OpenFails \<Rightarrow> (Inl OSError, w)
      | WriteFails n \<Rightarrow> (Inl OSError, w\<lparr>files := (files w)(filename \<mapsto> take n text)\<rparr>)
      | CloseFails n \<Rightarrow>
          (Inl OSError, w\<lparr>files := (files w)(filename \<mapsto> take n text),
                           stdout := stdout w @ [''File written to '' @ filename @ ''\<newline>'']\<rparr>)
      | NoFault \<Rightarrow>
          (Inr (), w\<lparr>files := (files w)(filename \<mapsto> text),
                      stdout := stdout w @ [''File written to '' @ filename @ ''\<newline>'']\<rparr>))"

definition init :: "string \<Rightarrow> world \<Rightarrow> (error + unit) \<times> world" where
  "init filename w0 =
     (if path_exists w0 filename then (Inl FileExistsError, w0)
      else case input ''Name: '' w0 of
        (Inl e, w1) \<Rightarrow> (Inl e, w1)
      | (Inr a1, w1) \<Rightarrow>
      (case class_name a1 of
        Inl e \<Rightarrow> (Inl e, w1)
      | Inr cn \<Rightarrow>
      (case input ''Types (separated by space): '' w1 of
        (Inl e, w2) \<Rightarrow> (Inl e, w2)
      | (Inr a2, w2) \<Rightarrow>
      (case input ''Predicates (separated by space): '' w2 of
        (Inl e, w3) \<Rightarrow> (Inl e, w3)
      | (Inr a3, w3) \<Rightarrow>
      (case input ''Actions (separated by space): '' w3 of
        (Inl e, w4) \<Rightarrow> (Inl e, w4)
      | (Inr a4, w4) \<Rightarrow>
          write_template filename (template cn (types a2) (predicates a3) (actions a4)) w4)))))"

section \<open>The output as a sequence of lines\<close>

text \<open>
  For the statements about lines and blank lines the rendered text is compared with an
  explicit list of lines. \<open>unlines\<close> ends every line with a line break; \<open>py_lines\<close> is
  Python's \<^verbatim>\<open>text.split("\n")\<close>; \<open>blank_separated\<close> puts one empty line between
  consecutive blocks of lines.
\<close>

definition unlines :: "string list \<Rightarrow> string" where
  "unlines ls = concat (map (\<lambda>l. l @ ''\<newline>'') ls)"

definition py_lines :: "string \<Rightarrow> string list" where
  "py_lines text = str_split (CHR 0x0A) text"

fun blank_separated :: "string list list \<Rightarrow> string list" where
  "blank_separated [] = []"
| "blank_separated [block] = block"
| "blank_separated (block # blocks) = block @ [[]] @ blank_separated blocks"

definition domain_header_lines :: "string \<Rightarrow> string list" where
  "domain_header_lines cn =
     [''from py2pddl import Domain, create_type, create_objs'',
      ''from py2pddl import predicate, action, goal, init'',
      [],
      [],
      ''class '' @ cn @ ''Domain(Domain):'']"

definition type_line :: "string \<Rightarrow> string" where
  \<open>type_line typ = ''    '' @ typ @ '' = create_type("'' @ typ @ ''")''\<close>

definition predicate_marker :: string where
  "predicate_marker = ''    @predicate(...)''"

definition predicate_lines :: "string \<Rightarrow> string list" where
  \<open>predicate_lines predicate =
     [predicate_marker,
      ''    def '' @ predicate @ ''(self):'',
      ''        """Complete the method signature"""'']\<close>

definition action_marker :: string where
  "action_marker = ''    @action(...)''"

definition action_lines :: "string \<Rightarrow> string list" where
  \<open>action_lines action =
     [action_marker,
      ''    def '' @ action @ ''(self):'',
      ''        """This should be a pass"""'',
      ''        precond: list = None  # to fill in'',
      ''        effect: list = None  # to fill in'',
      ''        return precond, effect'']\<close>

definition problem_class_line :: "string \<Rightarrow> string" where
  "problem_class_line cn = ''class '' @ cn @ ''Problem('' @ cn @ ''Domain):''"

definition object_lines :: "string list" where
  \<open>object_lines =
     [''    def __init__(self):'',
      ''        """To fill in"""'']\<close>

definition init_lines :: "string list" where
  "init_lines =
     [''    @init'',
      ''    def init(self) -> list:'',
      ''        # To fill in'',
      ''        # Return type is a list'',
      ''        return None'']"

definition goal_lines :: "string list" where
  "goal_lines =
     [''    @goal'',
      ''    def goal(self) -> list:'',
      ''        # To fill in'',
      ''        # Return type is a list'',
      ''        return None'']"

text \<open>
  A type-declaration line is a line of the shape that \<^verbatim>\<open>section_types\<close> renders for some
  token: four spaces, the token, \<^verbatim>\<open> = create_type("\<close>, the token again, \<^verbatim>\<open>")\<close>.
\<close>

definition is_type_line :: "string \<Rightarrow> bool" where
  "is_type_line l = (\<exists>typ \<in> set (prefixes (drop 4 l)). l = type_line typ)"

text \<open>
  A token in which no cased character directly follows an uncased one: the tokens on which
  \<^verbatim>\<open>str.title()\<close> and "uppercase the first character, lowercase the rest" agree.
\<close>

fun no_cased_after_uncased :: "string \<Rightarrow> bool" where
  "no_cased_after_uncased [] = True"
| "no_cased_after_uncased [c] = True"
| "no_cased_after_uncased (c # d # cs) =
     ((is_cased c \<or> \<not> is_cased d) \<and> no_cased_after_uncased (d # cs))"

text \<open>
  A world for concrete runs: an empty file system, the given answers waiting on standard
  input, nothing printed yet.
\<close>

definition fresh_world :: "string list \<Rightarrow> storage_fault \<Rightarrow> world" where
  "fresh_world answers fault =
     \<lparr>files = Map.empty, dirs = {}, stdin = answers, stdout = [], storage = fault\<rparr>"

text \<open>The lines of the whole output, in order.\<close>

definition template_lines ::
  "string \<Rightarrow> string list \<Rightarrow> string list \<Rightarrow> string list \<Rightarrow> string list" where
  "template_lines cn typs preds acts =
     domain_header_lines cn @ [[]] @
     map type_line typs @ [[]] @
     blank_separated (map predicate_lines preds) @ [[]] @
     blank_separated (map action_lines acts) @ [[], []] @
     [problem_class_line cn] @ [[]] @
     object_lines @ [[]] @
     init_lines @ [[]] @
     goal_lines"

section \<open>The rendered text, line by line\<close>

lemma str_join_empty_sep: "str_join [] parts = concat parts"
  by (induction "[] :: string" parts rule: str_join.induct) auto

lemma unlines_append: "unlines (xs @ ys) = unlines xs @ unlines ys"
  by (simp add: unlines_def)

lemma unlines_Cons: "unlines (l # ls) = l @ ''\<newline>'' @ unlines ls"
  by (simp add: unlines_def)

lemma unlines_Nil: "unlines [] = []"
  by (simp add: unlines_def)

lemma str_join_newline_unlines:
  "str_join ''\<newline>'' (map unlines blocks) = unlines (blank_separated blocks)"
proof (induction blocks rule: blank_separated.induct)
  case 1
  show ?case by (simp add: unlines_Nil)
next
  case (2 block)
  show ?case by simp
next
  case (3 block v va)
  then show ?case by (simp add: unlines_append unlines_Cons unlines_Nil)
qed

lemma type_block_unlines: "type_block typ = unlines [type_line typ]"
  by (simp add: type_block_def type_line_def unlines_def)

lemma predicate_block_unlines: "predicate_block p = unlines (predicate_lines p)"
  by (simp add: predicate_block_def predicate_lines_def predicate_marker_def unlines_def)

lemma action_block_unlines: "action_block a = unlines (action_lines a)"
  by (simp add: action_block_def action_lines_def action_marker_def unlines_def)

lemma section_types_unlines: "section_types typs = unlines (map type_line typs)"
  by (induction typs) (simp_all add: section_types_def str_join_empty_sep type_block_unlines unlines_def)

lemma section_predicate_unlines:
  "section_predicate preds = unlines (blank_separated (map predicate_lines preds))"
proof -
  have "map predicate_block preds = map unlines (map predicate_lines preds)"
    by (simp add: predicate_block_unlines)
  then show ?thesis
    unfolding section_predicate_def by (simp only: str_join_newline_unlines)
qed

lemma section_action_unlines:
  "section_action acts = unlines (blank_separated (map action_lines acts))"
proof -
  have "map action_block acts = map unlines (map action_lines acts)"
    by (simp add: action_block_unlines)
  then show ?thesis
    unfolding section_action_def by (simp only: str_join_newline_unlines)
qed

lemma domain_header_unlines: "domain_header cn = unlines (domain_header_lines cn)"
  by (simp add: domain_header_def domain_header_lines_def unlines_def)

lemma problem_header_unlines: "problem_header cn = unlines [[], problem_class_line cn]"
  by (simp add: problem_header_def problem_class_line_def unlines_def)

lemma section_object_unlines: "section_object = unlines object_lines"
  by (simp add: section_object_def object_lines_def unlines_def)

lemma section_init_unlines: "section_init = unlines init_lines"
  by (simp add: section_init_def init_lines_def unlines_def)

lemma section_goal_unlines: "section_goal = unlines goal_lines"
  by (simp add: section_goal_def goal_lines_def unlines_def)

lemma template_unlines:
  "template cn typs preds acts = unlines (template_lines cn typs preds acts)"
  unfolding template_def template_lines_def domain_header_unlines section_types_unlines
    section_predicate_unlines section_action_unlines problem_header_unlines
    section_object_unlines section_init_unlines section_goal_unlines
  by (simp add: unlines_append unlines_Cons unlines_Nil)

section \<open>Splitting, stripping and the case tables\<close>

lemma str_split_not_Nil: "str_split sep s \<noteq> []"
  by (induction s) (auto split: list.splits)

lemma str_split_line:
  "sep \<notin> set l \<Longrightarrow> str_split sep (l @ sep # rest) = l # str_split sep rest"
  by (induction l) (auto split: list.splits)

lemma py_lines_unlines:
  "\<forall>l \<in> set ls. CHR 0x0A \<notin> set l \<Longrightarrow> py_lines (unlines ls) = ls @ [[]]"
proof (induction ls)
  case Nil
  show ?case by (simp add: py_lines_def unlines_def)
next
  case (Cons l ls)
  then have "py_lines (unlines ls) = ls @ [[]]" and "CHR 0x0A \<notin> set l" by simp_all
  then show ?case
    using str_split_line [of "CHR 0x0A" l "unlines ls"]
    by (simp add: py_lines_def unlines_Cons)
qed

lemma str_split_fields: "f \<in> set (str_split sep s) \<Longrightarrow> set f \<subseteq> set s"
proof (induction s arbitrary: f)
  case Nil
  then show ?case by simp
next
  case (Cons c cs)
  show ?case
  proof (cases "c = sep")
    case True
    with Cons show ?thesis by auto
  next
    case False
    obtain g gs where g: "str_split sep cs = g # gs"
      using str_split_not_Nil [of sep cs] by (cases "str_split sep cs") auto
    with False Cons.prems have "f = c # g \<or> f \<in> set gs" by simp
    then show ?thesis
    proof
      assume "f = c # g"
      moreover have "set g \<subseteq> set cs" using Cons.IH [of g] g by simp
      ultimately show ?thesis by auto
    next
      assume "f \<in> set gs"
      then have "set f \<subseteq> set cs" using Cons.IH [of f] g by simp
      then show ?thesis by auto
    qed
  qed
qed

lemma set_lstrip: "set (lstrip s) \<subseteq> set s"
  by (auto simp: lstrip_def dest: set_dropWhileD)

lemma set_rstrip: "set (rstrip s) \<subseteq> set s"
  by (auto simp: rstrip_def dest: set_dropWhileD)

lemma set_strip: "set (rstrip (lstrip s)) \<subseteq> set s"
  using set_lstrip set_rstrip by blast

lemmas case_table_defs =
  lowercase_letters_def uppercase_letters_def ascii_lowercase_def ascii_uppercase_def
  latin1_lowercase_def latin1_uppercase_def unpartnered_cased_def

lemma char_upper_single: "c \<noteq> CHR 0xDF \<Longrightarrow> \<exists>u. char_upper c = [u]"
  by (cases "map_of (zip lowercase_letters uppercase_letters) c")
    (simp_all add: char_upper_def)

lemma char_upper_uncased: "\<not> is_cased c \<Longrightarrow> char_upper c = [c]"
proof -
  assume u: "\<not> is_cased c"
  then have "c \<noteq> CHR 0xDF" and "c \<notin> set lowercase_letters"
    by (auto simp: is_cased_def unpartnered_cased_def)
  then have "map_of (zip lowercase_letters uppercase_letters) c = None"
    by (simp add: map_of_zip_is_None case_table_defs)
  with \<open>c \<noteq> CHR 0xDF\<close> show ?thesis by (simp add: char_upper_def)
qed

lemma char_title_uncased: "\<not> is_cased c \<Longrightarrow> char_title c = [c]"
proof -
  assume u: "\<not> is_cased c"
  then have "c \<noteq> CHR 0xDF" by (auto simp: is_cased_def unpartnered_cased_def)
  with char_upper_uncased [OF u] show ?thesis by (simp add: char_title_def)
qed

lemma char_lower_uncased: "\<not> is_cased c \<Longrightarrow> char_lower c = c"
proof -
  assume "\<not> is_cased c"
  then have "c \<notin> set uppercase_letters" by (simp add: is_cased_def)
  then have "map_of (zip uppercase_letters lowercase_letters) c = None"
    by (simp add: map_of_zip_is_None case_table_defs)
  then show ?thesis by (simp add: char_lower_def)
qed

lemma char_upper_set: "x \<in> set (char_upper c) \<Longrightarrow> x = c \<or> is_cased x"
proof (cases "c = CHR 0xDF")
  case True
  assume "x \<in> set (char_upper c)"
  with True have "x = CHR ''S''" by (simp add: char_upper_def)
  then show ?thesis by (simp add: is_cased_def case_table_defs)
next
  case False
  assume x: "x \<in> set (char_upper c)"
  show ?thesis
  proof (cases "map_of (zip lowercase_letters uppercase_letters) c")
    case None
    with False x show ?thesis by (simp add: char_upper_def)
  next
    case (Some u)
    with False x have "x = u" by (simp add: char_upper_def)
    moreover from Some have "u \<in> set uppercase_letters"
      by (auto dest!: map_of_SomeD set_zip_rightD)
    ultimately show ?thesis by (simp add: is_cased_def)
  qed
qed

lemma char_title_set: "x \<in> set (char_title c) \<Longrightarrow> x = c \<or> is_cased x"
proof (cases "c = CHR 0xDF")
  case True
  assume "x \<in> set (char_title c)"
  with True have "x = CHR ''S'' \<or> x = CHR ''s''" by (simp add: char_title_def)
  then show ?thesis by (auto simp: is_cased_def case_table_defs)
next
  case False
  assume "x \<in> set (char_title c)"
  with False show ?thesis by (simp add: char_title_def char_upper_set)
qed

lemma char_lower_same_or_cased: "char_lower c = c \<or> is_cased (char_lower c)"
proof (cases "map_of (zip uppercase_letters lowercase_letters) c")
  case None
  then show ?thesis by (simp add: char_lower_def)
next
  case (Some l)
  then have "l \<in> set lowercase_letters"
    by (auto dest!: map_of_SomeD set_zip_rightD)
  with Some show ?thesis by (simp add: char_lower_def is_cased_def)
qed

lemma not_cased_newline: "\<not> is_cased (CHR 0x0A)"
  by (simp add: is_cased_def case_table_defs)

lemma title_from_uncased_notin:
  "\<not> is_cased x \<Longrightarrow> x \<notin> set s \<Longrightarrow> x \<notin> set (title_from b s)"
proof (induction s arbitrary: b)
  case Nil
  show ?case by simp
next
  case (Cons c cs)
  from Cons.prems have "c \<noteq> x" and "x \<notin> set cs" by auto
  then have "x \<notin> set (title_from (is_cased c) cs)"
    using Cons.IH [OF Cons.prems(1)] by simp
  moreover have "x \<notin> set (char_title c)"
    using \<open>c \<noteq> x\<close> Cons.prems(1) char_title_set [of x c] by auto
  moreover have "char_lower c \<noteq> x"
    using \<open>c \<noteq> x\<close> Cons.prems(1) char_lower_same_or_cased [of c] by auto
  ultimately show ?case by auto
qed

lemma str_lower_uncased_notin: "\<not> is_cased x \<Longrightarrow> x \<notin> set s \<Longrightarrow> x \<notin> set (str_lower s)"
proof
  assume u: "\<not> is_cased x" and n: "x \<notin> set s" and "x \<in> set (str_lower s)"
  then obtain c where "c \<in> set s" and "char_lower c = x"
    by (auto simp: str_lower_def)
  then show False
    using n u char_lower_same_or_cased [of c] by auto
qed

lemma types_no_newline:
  assumes "CHR 0x0A \<notin> set user_types" and "t \<in> set (types user_types)"
  shows "CHR 0x0A \<notin> set t"
proof -
  from assms(2) obtain f where f: "f \<in> set (str_split (CHR '' '') (rstrip (lstrip user_types)))"
    and t: "t = str_title f"
    by (auto simp: types_def)
  have "set f \<subseteq> set user_types"
    using str_split_fields [OF f] set_strip [of user_types] by blast
  with assms(1) have "CHR 0x0A \<notin> set f" by blast
  then show ?thesis
    unfolding t str_title_def by (rule title_from_uncased_notin [OF not_cased_newline])
qed

lemma lowered_no_newline:
  assumes "CHR 0x0A \<notin> set answer"
    and "t \<in> set (map str_lower (str_split (CHR '' '') (rstrip (lstrip answer))))"
  shows "CHR 0x0A \<notin> set t"
proof -
  from assms(2) obtain f where f: "f \<in> set (str_split (CHR '' '') (rstrip (lstrip answer)))"
    and t: "t = str_lower f"
    by auto
  have "set f \<subseteq> set answer"
    using str_split_fields [OF f] set_strip [of answer] by blast
  with assms(1) have "CHR 0x0A \<notin> set f" by blast
  then show ?thesis
    unfolding t by (rule str_lower_uncased_notin [OF not_cased_newline])
qed

lemma class_name_no_newline:
  assumes "CHR 0x0A \<notin> set answer" and "class_name answer = Inr cn"
  shows "CHR 0x0A \<notin> set cn"
proof -
  from assms(2) obtain c cs where s: "rstrip (lstrip answer) = c # cs"
    and cn: "cn = char_upper c @ cs"
    by (auto simp: class_name_def str_upper_def split: list.splits)
  have "set (c # cs) \<subseteq> set answer"
    using set_strip [of answer] s by simp
  with assms(1) have "c \<noteq> CHR 0x0A" and "CHR 0x0A \<notin> set cs" by auto
  then show ?thesis
    using char_upper_set [of "CHR 0x0A" c] not_cased_newline by (auto simp: cn)
qed

lemma filter_blank_separated:
  "\<not> P [] \<Longrightarrow> filter P (blank_separated blocks) = concat (map (filter P) blocks)"
  by (induction blocks rule: blank_separated.induct) auto

lemma count_blank_separated:
  assumes "y \<noteq> []"
  shows "count_list (blank_separated blocks) y = sum_list (map (\<lambda>b. count_list b y) blocks)"
  using assms by (induction blocks rule: blank_separated.induct) auto

lemma set_blank_separated:
  "set (blank_separated blocks) \<subseteq> insert [] (\<Union> (set (map set blocks)))"
  by (induction blocks rule: blank_separated.induct) auto

lemma sum_list_const: "sum_list (map (\<lambda>x. k) xs) = k * length xs"
  by (induction xs) auto

section \<open>Counting marker lines and type-declaration lines\<close>

lemma is_type_line_iff: "is_type_line l = (\<exists>typ. l = type_line typ)"
proof
  assume "is_type_line l"
  then show "\<exists>typ. l = type_line typ" by (auto simp: is_type_line_def)
next
  assume "\<exists>typ. l = type_line typ"
  then obtain t where l: "l = type_line t" ..
  have "prefix t (drop 4 l)" by (simp add: l type_line_def)
  then have "t \<in> set (prefixes (drop 4 l))" by (simp add: in_set_prefixes)
  with l show "is_type_line l" unfolding is_type_line_def by blast
qed

lemma type_line_end: \<open>take 2 (rev (type_line typ)) = '')"''\<close>
  by (simp add: type_line_def)

lemma is_type_line_end: \<open>is_type_line l \<Longrightarrow> take 2 (rev l) = '')"''\<close>
  by (auto simp: is_type_line_iff type_line_end)

lemma type_line_has_space: "CHR '' '' \<in> set (drop 4 (type_line typ))"
  by (simp add: type_line_def)

lemma type_line_not_marker:
  "type_line t \<noteq> predicate_marker" "type_line t \<noteq> action_marker"
  using type_line_has_space [of t]
  by (auto simp: predicate_marker_def action_marker_def)

lemma count_type_lines_marker:
  "count_list (map type_line typs) predicate_marker = 0"
  "count_list (map type_line typs) action_marker = 0"
  by (induction typs) (simp_all add: type_line_not_marker)

lemma filter_type_lines: "filter is_type_line (map type_line typs) = map type_line typs"
  by (induction typs) (auto simp: is_type_line_iff)

lemma count_predicate_lines:
  "count_list (predicate_lines p) predicate_marker = 1"
  "count_list (predicate_lines p) action_marker = 0"
  "filter is_type_line (predicate_lines p) = []"
  by (auto simp: predicate_lines_def predicate_marker_def action_marker_def
      dest: is_type_line_end)

lemma count_action_lines:
  "count_list (action_lines a) predicate_marker = 0"
  "count_list (action_lines a) action_marker = 1"
  "filter is_type_line (action_lines a) = []"
  by (auto simp: action_lines_def predicate_marker_def action_marker_def
      dest: is_type_line_end)

lemma count_domain_header_lines:
  "count_list (domain_header_lines cn) predicate_marker = 0"
  "count_list (domain_header_lines cn) action_marker = 0"
  "filter is_type_line (domain_header_lines cn) = []"
  by (auto simp: domain_header_lines_def predicate_marker_def action_marker_def
      dest: is_type_line_end)

lemma count_problem_class_line:
  "problem_class_line cn \<noteq> predicate_marker"
  "problem_class_line cn \<noteq> action_marker"
  "\<not> is_type_line (problem_class_line cn)"
  by (auto simp: problem_class_line_def predicate_marker_def action_marker_def
      dest: is_type_line_end)

lemma count_fixed_lines:
  "count_list object_lines predicate_marker = 0"
  "count_list init_lines predicate_marker = 0"
  "count_list goal_lines predicate_marker = 0"
  "count_list object_lines action_marker = 0"
  "count_list init_lines action_marker = 0"
  "count_list goal_lines action_marker = 0"
  "filter is_type_line object_lines = []"
  "filter is_type_line init_lines = []"
  "filter is_type_line goal_lines = []"
  by (auto simp: object_lines_def init_lines_def goal_lines_def predicate_marker_def
      action_marker_def dest: is_type_line_end)

lemma not_type_line_Nil: "\<not> is_type_line []"
  by (auto dest: is_type_line_end)

lemma marker_not_Nil: "predicate_marker \<noteq> []" "action_marker \<noteq> []"
  by (simp_all add: predicate_marker_def action_marker_def)

lemma count_predicate_blocks:
  "count_list (blank_separated (map predicate_lines preds)) predicate_marker = length preds"
  "count_list (blank_separated (map predicate_lines preds)) action_marker = 0"
  "filter is_type_line (blank_separated (map predicate_lines preds)) = []"
  by (simp_all add: count_blank_separated marker_not_Nil filter_blank_separated
      not_type_line_Nil count_predicate_lines comp_def sum_list_const)

lemma count_action_blocks:
  "count_list (blank_separated (map action_lines acts)) predicate_marker = 0"
  "count_list (blank_separated (map action_lines acts)) action_marker = length acts"
  "filter is_type_line (blank_separated (map action_lines acts)) = []"
  by (simp_all add: count_blank_separated marker_not_Nil filter_blank_separated
      not_type_line_Nil count_action_lines comp_def sum_list_const)

lemma template_lines_no_newline:
  assumes cn: "CHR 0x0A \<notin> set cn"
    and typs: "\<forall>t \<in> set typs. CHR 0x0A \<notin> set t"
    and preds: "\<forall>t \<in> set preds. CHR 0x0A \<notin> set t"
    and acts: "\<forall>t \<in> set acts. CHR 0x0A \<notin> set t"
  shows "\<forall>l \<in> set (template_lines cn typs preds acts). CHR 0x0A \<notin> set l"
proof -
  have h: "\<forall>l \<in> set (domain_header_lines cn). CHR 0x0A \<notin> set l"
    using cn by (simp add: domain_header_lines_def)
  have t: "\<forall>l \<in> set (map type_line typs). CHR 0x0A \<notin> set l"
    using typs by (auto simp: type_line_def)
  have "\<forall>b \<in> set (map predicate_lines preds). \<forall>l \<in> set b. CHR 0x0A \<notin> set l"
    using preds by (auto simp: predicate_lines_def predicate_marker_def)
  then have p: "\<forall>l \<in> set (blank_separated (map predicate_lines preds)). CHR 0x0A \<notin> set l"
    using set_blank_separated [of "map predicate_lines preds"] by fastforce
  have "\<forall>b \<in> set (map action_lines acts). \<forall>l \<in> set b. CHR 0x0A \<notin> set l"
    using acts by (auto simp: action_lines_def action_marker_def)
  then have a: "\<forall>l \<in> set (blank_separated (map action_lines acts)). CHR 0x0A \<notin> set l"
    using set_blank_separated [of "map action_lines acts"] by fastforce
  have c: "CHR 0x0A \<notin> set (problem_class_line cn)"
    using cn by (simp add: problem_class_line_def)
  have f: "\<forall>l \<in> set (object_lines @ [[]] @ init_lines @ [[]] @ goal_lines). CHR 0x0A \<notin> set l"
    by (simp add: object_lines_def init_lines_def goal_lines_def)
  show ?thesis
    unfolding template_lines_def using h t p a c f by (simp add: ball_Un)
qed

lemma py_lines_template:
  assumes "CHR 0x0A \<notin> set cn"
    and "\<forall>t \<in> set typs. CHR 0x0A \<notin> set t"
    and "\<forall>t \<in> set preds. CHR 0x0A \<notin> set t"
    and "\<forall>t \<in> set acts. CHR 0x0A \<notin> set t"
  shows "py_lines (template cn typs preds acts) = template_lines cn typs preds acts @ [[]]"
  unfolding template_unlines
  by (rule py_lines_unlines [OF template_lines_no_newline [OF assms]])

lemma count_template_lines:
  "count_list (template_lines cn typs preds acts) predicate_marker = length preds"
  "count_list (template_lines cn typs preds acts) action_marker = length acts"
  "length (filter is_type_line (template_lines cn typs preds acts)) = length typs"
  unfolding template_lines_def
  by (simp_all add: count_domain_header_lines count_type_lines_marker count_predicate_blocks
      count_action_blocks count_problem_class_line count_fixed_lines marker_not_Nil
      not_type_line_Nil filter_type_lines marker_not_Nil [symmetric])

section \<open>The outcomes of a run\<close>

lemma init_when_exists: "path_exists w filename \<Longrightarrow> init filename w = (Inl FileExistsError, w)"
  by (simp add: init_def)

lemma write_template_files:
  "write_template filename text w = (r, w') \<Longrightarrow>
     (r = Inr () \<and> storage w = NoFault \<and> files w' = (files w)(filename \<mapsto> text))
     \<or> (r = Inl OSError \<and> storage w = OpenFails \<and> files w' = files w)
     \<or> (\<exists>n. r = Inl OSError \<and> (storage w = WriteFails n \<or> storage w = CloseFails n)
              \<and> files w' = (files w)(filename \<mapsto> take n text))"
  by (auto simp: write_template_def split: storage_fault.splits)

lemma input_files: "input prompt w = (r, w') \<Longrightarrow> files w' = files w \<and> dirs w' = dirs w \<and> storage w' = storage w"
  by (auto simp: input_def Let_def split: list.splits)

lemma input_Inr:
  "input prompt w = (Inr a, w') \<Longrightarrow>
     stdin w = a # stdin w' \<and> stdout w' = stdout w @ [prompt]"
  by (auto simp: input_def Let_def split: list.splits)

lemma input_Cons:
  "stdin w = a # rest \<Longrightarrow>
     input prompt w = (Inr a, w\<lparr>stdout := stdout w @ [prompt], stdin := rest\<rparr>)"
  by (simp add: input_def Let_def)

lemma init_outcomes:
  assumes "init filename w = (r, w')"
  shows "(r = Inr () \<and> \<not> path_exists w filename \<and> storage w = NoFault
          \<and> (\<exists>a1 a2 a3 a4 rest cn.
                stdin w = a1 # a2 # a3 # a4 # rest \<and> class_name a1 = Inr cn
                \<and> files w' = (files w)(filename \<mapsto>
                     template cn (types a2) (predicates a3) (actions a4))))
       \<or> (\<exists>e. r = Inl e \<and> files w' = files w)
       \<or> (\<exists>n a1 a2 a3 a4 rest cn.
             r = Inl OSError \<and> \<not> path_exists w filename
             \<and> (storage w = WriteFails n \<or> storage w = CloseFails n)
             \<and> stdin w = a1 # a2 # a3 # a4 # rest \<and> class_name a1 = Inr cn
             \<and> files w' = (files w)(filename \<mapsto>
                  take n (template cn (types a2) (predicates a3) (actions a4))))"
proof (cases "path_exists w filename")
  case True
  with assms show ?thesis by (auto simp: init_when_exists)
next
  case False
  show ?thesis
  proof (cases "input ''Name: '' w")
    case (Pair r1 w1)
    note i1 = this
    show ?thesis
    proof (cases r1)
      case (Inl e)
      with assms False i1 input_files [OF i1] show ?thesis by (auto simp: init_def)
    next
      case (Inr a1)
      note r1 = this
      show ?thesis
      proof (cases "class_name a1")
        case (Inl e)
        with assms False i1 r1 input_files [OF i1] show ?thesis by (auto simp: init_def)
      next
        case (Inr cn)
        note cn = this
        show ?thesis
        proof (cases "input ''Types (separated by space): '' w1")
          case (Pair r2 w2)
          note i2 = this
          show ?thesis
          proof (cases r2)
            case (Inl e)
            with assms False i1 r1 cn i2 input_files [OF i1] input_files [OF i2]
            show ?thesis by (auto simp: init_def)
          next
            case (Inr a2)
            note r2 = this
            show ?thesis
            proof (cases "input ''Predicates (separated by space): '' w2")
              case (Pair r3 w3)
              note i3 = this
              show ?thesis
              proof (cases r3)
                case (Inl e)
                with assms False i1 r1 cn i2 r2 i3
                  input_files [OF i1] input_files [OF i2] input_files [OF i3]
                show ?thesis by (auto simp: init_def)
              next
                case (Inr a3)
                note r3 = this
                show ?thesis
                proof (cases "input ''Actions (separated by space): '' w3")
                  case (Pair r4 w4)
                  note i4 = this
                  show ?thesis
                  proof (cases r4)
                    case (Inl e)
                    with assms False i1 r1 cn i2 r2 i3 r3 i4
                      input_files [OF i1] input_files [OF i2] input_files [OF i3]
                      input_files [OF i4]
                    show ?thesis by (auto simp: init_def)
                  next
                    case (Inr a4)
                    note r4 = this
                    have w: "write_template filename
                               (template cn (types a2) (predicates a3) (actions a4)) w4 = (r, w')"
                      using assms False i1 r1 cn i2 r2 i3 r3 i4 r4 by (simp add: init_def)
                    have f4: "files w4 = files w" and s4: "storage w4 = storage w"
                      using input_files [OF i1] input_files [OF i2] input_files [OF i3]
                        input_files [OF i4] by simp_all
                    have "stdin w = a1 # a2 # a3 # a4 # stdin w4"
                      using input_Inr [OF i1 [unfolded r1]] input_Inr [OF i2 [unfolded r2]]
                        input_Inr [OF i3 [unfolded r3]] input_Inr [OF i4 [unfolded r4]]
                      by simp
                    note st = this
                    from write_template_files [OF w]
                    consider (written) "r = Inr ()" "storage w4 = NoFault"
                        "files w' = (files w4)(filename \<mapsto>
                           template cn (types a2) (predicates a3) (actions a4))"
                      | (unopened) "r = Inl OSError" "files w' = files w4"
                      | (partial) n where "r = Inl OSError"
                        "storage w4 = WriteFails n \<or> storage w4 = CloseFails n"
                        "files w' = (files w4)(filename \<mapsto>
                           take n (template cn (types a2) (predicates a3) (actions a4)))"
                      by blast
                    then show ?thesis
                    proof cases
                      case written
                      then have "r = Inr () \<and> \<not> path_exists w filename \<and> storage w = NoFault
                        \<and> (\<exists>a1 a2 a3 a4 rest cn.
                              stdin w = a1 # a2 # a3 # a4 # rest \<and> class_name a1 = Inr cn
                              \<and> files w' = (files w)(filename \<mapsto>
                                   template cn (types a2) (predicates a3) (actions a4)))"
                        using st False cn f4 s4 by auto
                      then show ?thesis by (rule disjI1)
                    next
                      case unopened
                      then have "\<exists>e. r = Inl e \<and> files w' = files w"
                        using f4 by simp
                      then show ?thesis by blast
                    next
                      case partial
                      then have "\<exists>n a1 a2 a3 a4 rest cn.
                          r = Inl OSError \<and> \<not> path_exists w filename
                          \<and> (storage w = WriteFails n \<or> storage w = CloseFails n)
                          \<and> stdin w = a1 # a2 # a3 # a4 # rest \<and> class_name a1 = Inr cn
                          \<and> files w' = (files w)(filename \<mapsto>
                               take n (template cn (types a2) (predicates a3) (actions a4)))"
                        using st False cn f4 s4 by auto
                      then show ?thesis by blast
                    qed
                  qed
                qed
              qed
            qed
          qed
        qed
      qed
    qed
  qed
qed

section \<open>Title case against "capitalise"\<close>

lemma partnered_upper:
  assumes "c \<notin> set unpartnered_cased"
  shows "char_title c = char_upper c" and "\<exists>u. char_upper c = [u]"
proof -
  from assms have ne: "c \<noteq> CHR 0xDF" by (auto simp: unpartnered_cased_def)
  then show "char_title c = char_upper c" by (simp add: char_title_def)
  from ne show "\<exists>u. char_upper c = [u]"
    by (rule char_upper_single)
qed

lemma partnered_cased_changes:
  assumes "c \<notin> set unpartnered_cased" and "is_cased c"
  shows "char_upper c \<noteq> [char_lower c]"
proof -
  from assms have "c \<in> set lowercase_letters \<or> c \<in> set uppercase_letters"
    by (auto simp: is_cased_def unpartnered_cased_def)
  then show ?thesis
  proof
    assume "c \<in> set lowercase_letters"
    then show ?thesis
      by (auto simp: char_upper_def char_lower_def case_table_defs)
  next
    assume "c \<in> set uppercase_letters"
    then show ?thesis
      by (auto simp: char_upper_def char_lower_def case_table_defs)
  qed
qed

lemma uncased_after_uncased:
  "\<not> is_cased d \<Longrightarrow> no_cased_after_uncased (d # cs) \<Longrightarrow> \<forall>c \<in> set (d # cs). \<not> is_cased c"
  by (induction cs arbitrary: d) auto

lemma title_from_all_uncased:
  "\<forall>c \<in> set s. \<not> is_cased c \<Longrightarrow> title_from b s = s \<and> str_lower s = s"
  by (induction s arbitrary: b)
    (auto simp: str_lower_def char_title_uncased char_lower_uncased)

lemma no_cased_after_uncased_tl:
  "no_cased_after_uncased (c # cs) \<Longrightarrow> no_cased_after_uncased cs"
  by (cases cs) auto

lemma title_from_True_lower:
  "no_cased_after_uncased s \<Longrightarrow> title_from True s = str_lower s"
proof (induction s)
  case Nil
  show ?case by (simp add: str_lower_def)
next
  case (Cons d cs)
  show ?case
  proof (cases "is_cased d")
    case True
    then show ?thesis
      using Cons.IH [OF no_cased_after_uncased_tl [OF Cons.prems]]
      by (simp add: str_lower_def)
  next
    case False
    then have "\<forall>c \<in> set cs. \<not> is_cased c"
      using uncased_after_uncased [OF False Cons.prems] by simp
    then show ?thesis
      using title_from_all_uncased [of cs False] False by (simp add: str_lower_def)
  qed
qed

lemma title_from_lower_shape:
  assumes "set s \<inter> set unpartnered_cased = {}"
  shows "title_from b s = str_lower s \<Longrightarrow>
     (s = [] \<or> b \<or> \<not> is_cased (hd s)) \<and> no_cased_after_uncased s"
  using assms
proof (induction s arbitrary: b)
  case Nil
  show ?case by simp
next
  case (Cons c cs)
  from Cons.prems(2) have c: "c \<notin> set unpartnered_cased"
    and cs: "set cs \<inter> set unpartnered_cased = {}"
    by auto
  from partnered_upper [OF c] obtain u where u: "char_upper c = [u]" "char_title c = [u]"
    by auto
  from Cons.prems(1) have hd_eq: "(if b then char_lower c else u) = char_lower c"
    and tl_eq: "title_from (is_cased c) cs = str_lower cs"
    by (simp_all add: str_lower_def u split: if_splits)
  from Cons.IH [OF tl_eq cs]
  have ih: "(cs = [] \<or> is_cased c \<or> \<not> is_cased (hd cs))" "no_cased_after_uncased cs"
    by simp_all
  have "b \<or> \<not> is_cased c"
    using hd_eq partnered_cased_changes [OF c] u by (cases b) auto
  moreover have "no_cased_after_uncased (c # cs)"
    using ih by (cases cs) auto
  ultimately show ?case by simp
qed

lemma str_title_Cons:
  "str_title (c # cs) = char_title c @ title_from (is_cased c) cs"
  by (simp add: str_title_def)

lemma str_title_capitalize_iff:
  assumes "set t \<inter> set unpartnered_cased = {}"
  shows "(str_title t = str_upper (take 1 t) @ str_lower (drop 1 t)) = no_cased_after_uncased t"
proof (cases t)
  case Nil
  then show ?thesis by (simp add: str_title_def str_upper_def str_lower_def)
next
  case (Cons c cs)
  from assms Cons have c: "c \<notin> set unpartnered_cased"
    and cs: "set cs \<inter> set unpartnered_cased = {}"
    by auto
  have "(title_from (is_cased c) cs = str_lower cs) = no_cased_after_uncased (c # cs)"
  proof
    assume "title_from (is_cased c) cs = str_lower cs"
    from title_from_lower_shape [OF cs this] show "no_cased_after_uncased (c # cs)"
      by (cases cs) auto
  next
    assume n: "no_cased_after_uncased (c # cs)"
    show "title_from (is_cased c) cs = str_lower cs"
    proof (cases "is_cased c")
      case True
      then show ?thesis
        using title_from_True_lower [OF no_cased_after_uncased_tl [OF n]] by simp
    next
      case False
      then have "\<forall>x \<in> set cs. \<not> is_cased x"
        using uncased_after_uncased [OF False n] by simp
      then show ?thesis
        using title_from_all_uncased [of cs False] False by simp
    qed
  qed
  moreover have "str_upper (take 1 (c # cs)) = char_title c"
    using partnered_upper(1) [OF c] by (simp add: str_upper_def)
  moreover have "drop 1 (c # cs) = cs" by simp
  ultimately show ?thesis
    unfolding Cons str_title_Cons by (simp only: same_append_eq)
qed

section \<open>Claims\<close>

subsection \<open>C1: the empty name\<close>

text \<open>
  Claim C1, as amended. If the name answer is empty after stripping, the run ends at the name
  step with Python's \<^verbatim>\<open>IndexError\<close>, raised by the unguarded \<^verbatim>\<open>class_name[0]\<close>: the
  source has no check of the name and no error type of its own for it. Only the
  \<^verbatim>\<open>Name: \<close> prompt has been issued, only the name answer has been read, and the rest of
  the world (the file system in particular) is as it was.
\<close>

theorem empty_name_raises_IndexError:
  assumes "rstrip (lstrip answer) = []"
    and "\<not> path_exists w filename" and "stdin w = answer # rest"
  shows "class_name answer = Inl IndexError
       \<and> init filename w
           = (Inl IndexError, w\<lparr>stdout := stdout w @ [''Name: ''], stdin := rest\<rparr>)"
proof -
  have c: "class_name answer = Inl IndexError"
    using assms(1) by (simp add: class_name_def)
  then show ?thesis
    using assms(2) input_Cons [OF assms(3), of "''Name: ''"] by (simp add: init_def)
qed

theorem empty_name_raises_IndexError_witness:
  "rstrip (lstrip ''  '') = []
   \<and> \<not> path_exists (fresh_world [''  '', ''a'', ''b'', ''c''] NoFault) ''d.py''
   \<and> stdin (fresh_world [''  '', ''a'', ''b'', ''c''] NoFault) = ''  '' # [''a'', ''b'', ''c'']
   \<and> (class_name ''  '' = Inl IndexError
      \<and> init ''d.py'' (fresh_world [''  '', ''a'', ''b'', ''c''] NoFault)
          = (Inl IndexError,
             (fresh_world [''  '', ''a'', ''b'', ''c''] NoFault)
               \<lparr>stdout := stdout (fresh_world [''  '', ''a'', ''b'', ''c''] NoFault) @ [''Name: ''],
                stdin := [''a'', ''b'', ''c'']\<rparr>))"
proof -
  have h1: "rstrip (lstrip ''  '') = []" by code_simp
  have h2: "\<not> path_exists (fresh_world [''  '', ''a'', ''b'', ''c''] NoFault) ''d.py''"
    by (simp add: path_exists_def fresh_world_def)
  have h3: "stdin (fresh_world [''  '', ''a'', ''b'', ''c''] NoFault) = ''  '' # [''a'', ''b'', ''c'']"
    by (simp add: fresh_world_def)
  from h1 h2 h3 empty_name_raises_IndexError [OF h1 h2 h3] show ?thesis by blast
qed

text \<open>
  The claim as stated (a typed, guarded failure instead of an unchecked runtime fault) fails
  on the empty answer: the run ends with the \<^verbatim>\<open>IndexError\<close> of the string indexing.
\<close>

theorem empty_name_counterexample:
  "rstrip (lstrip '''') = []
   \<and> class_name '''' = Inl IndexError
   \<and> fst (init ''d.py'' (fresh_world ['''', ''a'', ''b'', ''c''] NoFault)) = Inl IndexError"
  by (simp add: rstrip_def lstrip_def class_name_def init_def path_exists_def fresh_world_def
      input_def)

subsection \<open>C2: the empty types answer\<close>

text \<open>
  Claim C2, as amended. If the types answer is empty after stripping, splitting it on the
  space yields one token, the empty string (not an empty sequence), and the
  type-declarations section is the one line \<^verbatim>\<open>     = create_type("")\<close>; the output still
  begins with the domain header and contains the problem header, both unchanged.
\<close>

theorem empty_types_answer_one_empty_token:
  assumes "rstrip (lstrip user_types) = []"
  shows \<open>types user_types = ['''']
       \<and> section_types (types user_types) = ''     = create_type("")\<newline>''
       \<and> template cn (types user_types) preds acts
           = domain_header cn @ ''\<newline>'' @ ''     = create_type("")\<newline>'' @ ''\<newline>'' @
             section_predicate preds @ ''\<newline>'' @ section_action acts @ ''\<newline>'' @
             problem_header cn @ ''\<newline>'' @ section_object @ ''\<newline>'' @ section_init @
             ''\<newline>'' @ section_goal\<close>
  using assms
  by (simp add: types_def str_title_def section_types_def type_block_def template_def)

theorem empty_types_answer_one_empty_token_witness:
  \<open>rstrip (lstrip ''  '') = []
   \<and> (types ''  '' = ['''']
      \<and> section_types (types ''  '') = ''     = create_type("")\<newline>''
      \<and> template ''Rocket'' (types ''  '') [''launched''] [''launch'']
          = domain_header ''Rocket'' @ ''\<newline>'' @ ''     = create_type("")\<newline>'' @ ''\<newline>'' @
            section_predicate [''launched''] @ ''\<newline>'' @ section_action [''launch''] @
            ''\<newline>'' @ problem_header ''Rocket'' @ ''\<newline>'' @ section_object @ ''\<newline>'' @
            section_init @ ''\<newline>'' @ section_goal)\<close>
proof -
  have h: "rstrip (lstrip ''  '') = []" by code_simp
  from h empty_types_answer_one_empty_token [OF h, of "''Rocket''" "[''launched'']" "[''launch'']"]
  show ?thesis by blast
qed

text \<open>
  The claim as stated fails on the empty answer: the token sequence is not empty and the
  section is not the empty string.
\<close>

theorem empty_types_answer_counterexample:
  \<open>rstrip (lstrip '''') = []
   \<and> types '''' = ['''']
   \<and> types '''' \<noteq> []
   \<and> section_types (types '''') = ''     = create_type("")\<newline>''
   \<and> section_types (types '''') \<noteq> ''''\<close>
  by code_simp

subsection \<open>C3: between two stub blocks\<close>

text \<open>
  Claim C3, as amended. Within the predicate-stubs section and within the action-stubs
  section, consecutive blocks are joined by one line break; every block already ends with
  a line break, so the rendered text has exactly one empty line between the last line of a
  block and the first line of the next: each section is the lines of its blocks, every line
  ended by a line break, with one empty line between consecutive blocks.
\<close>

theorem stub_blocks_blank_separated:
  "section_predicate preds = unlines (blank_separated (map predicate_lines preds))
   \<and> section_action acts = unlines (blank_separated (map action_lines acts))"
  by (simp only: section_predicate_unlines section_action_unlines simp_thms)

text \<open>
  The claim as stated (no empty line between two blocks) fails for two predicates and for
  two actions: the fourth line of the predicate section and the seventh line of the action
  section are empty.
\<close>

theorem stub_blocks_blank_line_counterexample:
  \<open>py_lines (section_predicate [''a'', ''b'']) =
     [''    @predicate(...)'',
      ''    def a(self):'',
      ''        """Complete the method signature"""'',
      '''',
      ''    @predicate(...)'',
      ''    def b(self):'',
      ''        """Complete the method signature"""'',
      '''']
   \<and> take 3 (drop 5 (py_lines (section_action [''a'', ''b'']))) =
     [''        return precond, effect'',
      '''',
      ''    @action(...)'']\<close>
  by code_simp

subsection \<open>C4: between two sections\<close>

text \<open>
  Claim C4, as amended. The output is the following lines, each ended by a line break: the
  five lines of the domain header, one empty line, one line per type token, one empty
  line, the predicate blocks with one empty line between them, one empty line, the action
  blocks with one empty line between them, two empty lines (the separator and the line
  break that \<^verbatim>\<open>problem_header\<close> itself starts with), the \<^verbatim>\<open>class ...Problem\<close> line, one
  empty line, the object stub, one empty line, the init stub, one empty line, the goal
  stub. So consecutive sections are separated by exactly one empty line except the action
  stubs and the problem header, which are separated by two.
\<close>

theorem sections_blank_lines:
  "template cn typs preds acts =
     unlines (domain_header_lines cn @ [[]] @
              map type_line typs @ [[]] @
              blank_separated (map predicate_lines preds) @ [[]] @
              blank_separated (map action_lines acts) @ [[], []] @
              [problem_class_line cn] @ [[]] @
              object_lines @ [[]] @
              init_lines @ [[]] @
              goal_lines)"
  using template_unlines [of cn typs preds acts] by (simp only: template_lines_def)

text \<open>
  The claim as stated fails on every input; here, two empty lines stand between the last
  line of the action stubs and the problem header.
\<close>

theorem sections_blank_lines_counterexample:
  "take 4 (drop 17 (py_lines (template ''A'' [''T''] [''p''] [''a''])))
   = [''        return precond, effect'', '''', '''', ''class AProblem(ADomain):'']"
  by code_simp

subsection \<open>C5: title case of the type tokens\<close>

text \<open>
  Claim C5, as amended. Every type token without the five cased characters that have no
  case partner in Latin-1 (U+00AA, U+00B5, U+00BA, the sharp s and U+00FF), so in
  particular every ASCII token, is rendered by \<^verbatim>\<open>str.title()\<close>: the token at position
  \<open>k\<close> of the split is rendered as its title case, in which a character is uppercased
  when it starts the token or follows an uncased character and lowercased when it follows
  a cased one. The rendered token equals uppercase(t[:1]) followed by lowercase(t[1:])
  (the uppercase of the first character, if there is one, then the lowercase of the rest)
  exactly when no cased character of the token directly follows an uncased one (every
  purely alphabetic token, and the empty token, are such).
\<close>

theorem type_token_title_case:
  assumes "k < length (str_split (CHR '' '') (rstrip (lstrip user_types)))"
    and "set (str_split (CHR '' '') (rstrip (lstrip user_types)) ! k) \<inter> set unpartnered_cased = {}"
  shows "types user_types ! k = str_title (str_split (CHR '' '') (rstrip (lstrip user_types)) ! k)
       \<and> (types user_types ! k
            = str_upper (take 1 (str_split (CHR '' '') (rstrip (lstrip user_types)) ! k))
              @ str_lower (drop 1 (str_split (CHR '' '') (rstrip (lstrip user_types)) ! k)))
           = no_cased_after_uncased (str_split (CHR '' '') (rstrip (lstrip user_types)) ! k)"
proof -
  have "types user_types ! k
        = str_title (str_split (CHR '' '') (rstrip (lstrip user_types)) ! k)"
    using assms(1) by (simp add: types_def)
  then show ?thesis
    by (simp only: str_title_capitalize_iff [OF assms(2)] simp_thms)
qed

theorem type_token_title_case_witness:
  "0 < length (str_split (CHR '' '') (rstrip (lstrip ''location my_type'')))
   \<and> set (str_split (CHR '' '') (rstrip (lstrip ''location my_type'')) ! 0)
       \<inter> set unpartnered_cased = {}
   \<and> (types ''location my_type'' ! 0
        = str_title (str_split (CHR '' '') (rstrip (lstrip ''location my_type'')) ! 0)
      \<and> (types ''location my_type'' ! 0
           = str_upper (take 1 (str_split (CHR '' '') (rstrip (lstrip ''location my_type'')) ! 0))
             @ str_lower (drop 1 (str_split (CHR '' '') (rstrip (lstrip ''location my_type'')) ! 0)))
          = no_cased_after_uncased
              (str_split (CHR '' '') (rstrip (lstrip ''location my_type'')) ! 0))
   \<and> str_split (CHR '' '') (rstrip (lstrip ''location my_type'')) ! 0 = ''location''
   \<and> no_cased_after_uncased ''location''
   \<and> types ''location my_type'' ! 0 = ''Location''"
proof -
  have h: "0 < length (str_split (CHR '' '') (rstrip (lstrip ''location my_type'')))"
    by code_simp
  have e: "str_split (CHR '' '') (rstrip (lstrip ''location my_type'')) ! 0 = ''location''
     \<and> no_cased_after_uncased ''location''
     \<and> types ''location my_type'' ! 0 = ''Location''"
    by code_simp
  have "set ''location'' \<inter> set unpartnered_cased = {}"
    by (simp add: unpartnered_cased_def)
  with e have p: "set (str_split (CHR '' '') (rstrip (lstrip ''location my_type'')) ! 0)
       \<inter> set unpartnered_cased = {}"
    by simp
  from h p type_token_title_case [OF h p] e show ?thesis by blast
qed

text \<open>
  The claim as stated fails on a token with an underscore: \<^verbatim>\<open>my_type\<close> is rendered
  \<^verbatim>\<open>My_Type\<close>, not \<^verbatim>\<open>My_type\<close>.
\<close>

theorem type_token_title_case_counterexample:
  "str_split (CHR '' '') (rstrip (lstrip ''my_type'')) = [''my_type'']
   \<and> types ''my_type'' = [''My_Type'']
   \<and> str_upper (take 1 ''my_type'') @ str_lower (drop 1 ''my_type'') = ''My_type''
   \<and> types ''my_type'' ! 0 \<noteq> str_upper (take 1 ''my_type'') @ str_lower (drop 1 ''my_type'')"
  by code_simp

subsection \<open>C6: the destination exists\<close>

text \<open>
  Claim C6. If the destination path already exists, the run ends with
  \<^verbatim>\<open>FileExistsError\<close> (the error the spec calls DestinationExistsError) and the world is
  exactly as before: no prompt has been written to standard output, no answer has been
  read, no file has been written. The check comes before all interactive I/O.
\<close>

theorem existing_destination_aborts_first:
  "path_exists w filename \<Longrightarrow> init filename w = (Inl FileExistsError, w)"
  by (rule init_when_exists)

theorem existing_destination_aborts_first_witness:
  "path_exists ((fresh_world [''rocket'', ''a'', ''b'', ''c''] NoFault)
      \<lparr>files := [''d.py'' \<mapsto> ''x'']\<rparr>) ''d.py''
   \<and> init ''d.py'' ((fresh_world [''rocket'', ''a'', ''b'', ''c''] NoFault)
      \<lparr>files := [''d.py'' \<mapsto> ''x'']\<rparr>)
     = (Inl FileExistsError,
        (fresh_world [''rocket'', ''a'', ''b'', ''c''] NoFault)\<lparr>files := [''d.py'' \<mapsto> ''x'']\<rparr>)"
proof -
  have h: "path_exists ((fresh_world [''rocket'', ''a'', ''b'', ''c''] NoFault)
      \<lparr>files := [''d.py'' \<mapsto> ''x'']\<rparr>) ''d.py''"
    by (simp add: path_exists_def fresh_world_def)
  from h existing_destination_aborts_first [OF h] show ?thesis by blast
qed

subsection \<open>C7: the class name\<close>




subsection \<open>C8: as many stubs as tokens\<close>

text \<open>
  Claim C8. For every set of answers (lines read by \<^verbatim>\<open>input\<close>, so without a line break,
  and a name that is not empty after stripping), the number of predicate stub blocks in
  the output, counted as the lines that are the \<^verbatim>\<open>@predicate(...)\<close> marker, equals the
  number of fields of the stripped predicates answer split on the space, duplicates and
  empty fields included; likewise the number of \<^verbatim>\<open>@action(...)\<close> marker lines equals the
  number of action fields, and the number of type-declaration lines equals the number of
  type fields.
\<close>

theorem stub_counts_match_token_counts:
  assumes "CHR 0x0A \<notin> set name_answer" and "CHR 0x0A \<notin> set user_types"
    and "CHR 0x0A \<notin> set user_predicates" and "CHR 0x0A \<notin> set user_actions"
    and "class_name name_answer = Inr cn"
  shows "count_list
           (py_lines (template cn (types user_types) (predicates user_predicates)
              (actions user_actions)))
           predicate_marker
         = length (str_split (CHR '' '') (rstrip (lstrip user_predicates)))
       \<and> count_list
           (py_lines (template cn (types user_types) (predicates user_predicates)
              (actions user_actions)))
           action_marker
         = length (str_split (CHR '' '') (rstrip (lstrip user_actions)))
       \<and> length (filter is_type_line
           (py_lines (template cn (types user_types) (predicates user_predicates)
              (actions user_actions))))
         = length (str_split (CHR '' '') (rstrip (lstrip user_types)))"
proof -
  have cn: "CHR 0x0A \<notin> set cn"
    using class_name_no_newline [OF assms(1) assms(5)] .
  have t: "\<forall>t \<in> set (types user_types). CHR 0x0A \<notin> set t"
    using types_no_newline [OF assms(2)] by blast
  have p: "\<forall>t \<in> set (predicates user_predicates). CHR 0x0A \<notin> set t"
    unfolding predicates_def using lowered_no_newline [OF assms(3)] by blast
  have a: "\<forall>t \<in> set (actions user_actions). CHR 0x0A \<notin> set t"
    unfolding actions_def using lowered_no_newline [OF assms(4)] by blast
  have lines: "py_lines (template cn (types user_types) (predicates user_predicates)
                 (actions user_actions))
               = template_lines cn (types user_types) (predicates user_predicates)
                   (actions user_actions) @ [[]]"
    by (rule py_lines_template [OF cn t p a])
  have "length (types user_types) = length (str_split (CHR '' '') (rstrip (lstrip user_types)))"
    and "length (predicates user_predicates)
         = length (str_split (CHR '' '') (rstrip (lstrip user_predicates)))"
    and "length (actions user_actions)
         = length (str_split (CHR '' '') (rstrip (lstrip user_actions)))"
    by (simp_all add: types_def predicates_def actions_def)
  then show ?thesis
    unfolding lines
    by (simp add: count_template_lines marker_not_Nil marker_not_Nil [symmetric]
        not_type_line_Nil)
qed

theorem stub_counts_match_token_counts_witness:
  "CHR 0x0A \<notin> set ''rocket'' \<and> CHR 0x0A \<notin> set ''location stage''
   \<and> CHR 0x0A \<notin> set ''launched  launched'' \<and> CHR 0x0A \<notin> set ''launch''
   \<and> class_name ''rocket'' = Inr ''Rocket''
   \<and> count_list
         (py_lines (template ''Rocket'' (types ''location stage'')
            (predicates ''launched  launched'') (actions ''launch'')))
         predicate_marker = 3
   \<and> count_list
         (py_lines (template ''Rocket'' (types ''location stage'')
            (predicates ''launched  launched'') (actions ''launch'')))
         action_marker = 1
   \<and> length (filter is_type_line
         (py_lines (template ''Rocket'' (types ''location stage'')
            (predicates ''launched  launched'') (actions ''launch'')))) = 2"
proof -
  have h1: "CHR 0x0A \<notin> set ''rocket''" by simp
  have h2: "CHR 0x0A \<notin> set ''location stage''" by simp
  have h3: "CHR 0x0A \<notin> set ''launched  launched''" by simp
  have h4: "CHR 0x0A \<notin> set ''launch''" by simp
  have h5: "class_name ''rocket'' = Inr ''Rocket''" by code_simp
  have l1: "length (str_split (CHR '' '') (rstrip (lstrip ''launched  launched''))) = 3"
    by code_simp
  have l2: "length (str_split (CHR '' '') (rstrip (lstrip ''launch''))) = 1"
    by code_simp
  have l3: "length (str_split (CHR '' '') (rstrip (lstrip ''location stage''))) = 2"
    by code_simp
  show ?thesis
    using stub_counts_match_token_counts [OF h1 h2 h3 h4 h5] h1 h2 h3 h4 h5
    by (simp only: l1 l2 l3 simp_thms)
qed

subsection \<open>C9: what a failed run leaves behind\<close>

text \<open>
  Claim C9, as amended. Every run ends in one of three ways. Success: the destination did
  not exist, the storage layer raised nothing, all four answers were read, the name was not
  empty, and the destination file holds the full rendered skeleton. Failure with the files
  untouched: the destination existed, a prompt met the end of input, the name was empty,
  or the file could not be opened. Failure in the write: \<^verbatim>\<open>open(filename, "w")\<close> has
  created the destination, \<^verbatim>\<open>f.write\<close> or the closing of the file raised, and the
  destination is left behind holding the part of the skeleton that had been written (the
  source neither writes atomically nor removes the file).
\<close>

theorem run_outcomes:
  assumes "init filename w = (r, w')"
  shows "(r = Inr () \<and> \<not> path_exists w filename \<and> storage w = NoFault
          \<and> (\<exists>a1 a2 a3 a4 rest cn.
                stdin w = a1 # a2 # a3 # a4 # rest \<and> class_name a1 = Inr cn
                \<and> files w' = (files w)(filename \<mapsto>
                     template cn (types a2) (predicates a3) (actions a4))))
       \<or> (\<exists>e. r = Inl e \<and> files w' = files w)
       \<or> (\<exists>n a1 a2 a3 a4 rest cn.
             r = Inl OSError \<and> \<not> path_exists w filename
             \<and> (storage w = WriteFails n \<or> storage w = CloseFails n)
             \<and> stdin w = a1 # a2 # a3 # a4 # rest \<and> class_name a1 = Inr cn
             \<and> files w' = (files w)(filename \<mapsto>
                  take n (template cn (types a2) (predicates a3) (actions a4))))"
  using assms by (rule init_outcomes)

theorem run_outcomes_witness:
  "fst (init ''d.py''
         (fresh_world [''rocket'', ''location stage'', ''launched docked'', ''launch''] NoFault))
     = Inr ()
   \<and> files (snd (init ''d.py''
         (fresh_world [''rocket'', ''location stage'', ''launched docked'', ''launch''] NoFault)))
       ''d.py''
     = Some (template ''Rocket'' (types ''location stage'') (predicates ''launched docked'')
         (actions ''launch''))"
proof -
  let ?w = "fresh_world [''rocket'', ''location stage'', ''launched docked'', ''launch''] NoFault"
  have cn: "class_name ''rocket'' = Inr ''Rocket''" by code_simp
  have run: "init ''d.py'' ?w = (fst (init ''d.py'' ?w), snd (init ''d.py'' ?w))" by simp
  have ok: "fst (init ''d.py'' ?w) = Inr ()"
    by (simp add: init_def path_exists_def fresh_world_def input_def write_template_def cn)
  have st: "stdin ?w = [''rocket'', ''location stage'', ''launched docked'', ''launch'']"
    and fs: "files ?w = Map.empty"
    by (simp_all add: fresh_world_def)
  from run_outcomes [OF run] ok
  have "\<exists>a1 a2 a3 a4 rest cn.
          stdin ?w = a1 # a2 # a3 # a4 # rest \<and> class_name a1 = Inr cn
          \<and> files (snd (init ''d.py'' ?w))
              = (files ?w)(''d.py'' \<mapsto> template cn (types a2) (predicates a3) (actions a4))"
    by auto
  then obtain a1 a2 a3 a4 rest c where
    s: "stdin ?w = a1 # a2 # a3 # a4 # rest" and c: "class_name a1 = Inr c"
    and f: "files (snd (init ''d.py'' ?w))
              = (files ?w)(''d.py'' \<mapsto> template c (types a2) (predicates a3) (actions a4))"
    by blast
  from s st have "a1 = ''rocket''" "a2 = ''location stage''" "a3 = ''launched docked''"
    "a4 = ''launch''"
    by simp_all
  with c cn f have "files (snd (init ''d.py'' ?w)) ''d.py''
     = Some (template ''Rocket'' (types ''location stage'') (predicates ''launched docked'')
         (actions ''launch''))"
    by simp
  with ok show ?thesis by blast
qed

text \<open>
  The claim as stated (a failure during the write leaves nothing behind) fails when the
  storage layer raises after five characters: the run ends with \<^verbatim>\<open>OSError\<close>, and the
  destination, which did not exist before, holds \<^verbatim>\<open>from \<close>, whether the error comes
  from \<^verbatim>\<open>f.write\<close> or from closing the file. When it raises before any character is
  stored, the destination is left behind as an empty file.
\<close>

theorem partial_file_counterexample:
  "files (fresh_world [''rocket'', ''location'', ''launched'', ''launch''] (WriteFails 5))
     ''d.py'' = None
   \<and> fst (init ''d.py''
         (fresh_world [''rocket'', ''location'', ''launched'', ''launch''] (WriteFails 5)))
       = Inl OSError
   \<and> files (snd (init ''d.py''
         (fresh_world [''rocket'', ''location'', ''launched'', ''launch''] (WriteFails 5))))
       ''d.py''
       = Some ''from ''
   \<and> files (snd (init ''d.py''
         (fresh_world [''rocket'', ''location'', ''launched'', ''launch''] (WriteFails 0))))
       ''d.py''
       = Some []
   \<and> fst (init ''d.py''
         (fresh_world [''rocket'', ''location'', ''launched'', ''launch''] (CloseFails 5)))
       = Inl OSError
   \<and> files (snd (init ''d.py''
         (fresh_world [''rocket'', ''location'', ''launched'', ''launch''] (CloseFails 5))))
       ''d.py''
       = Some ''from ''"
proof -
  have cn: "class_name ''rocket'' = Inr ''Rocket''" by code_simp
  have t: "take 5 (template ''Rocket'' (types ''location'') (predicates ''launched'')
             (actions ''launch'')) = ''from ''"
    by (simp add: template_def domain_header_def)
  show ?thesis
    by (simp add: init_def path_exists_def fresh_world_def input_def write_template_def cn t)
qed

subsection \<open>C10: the name reaches the two headers only\<close>

text \<open>
  Claim C10. Take two successful runs with the same types, predicates and actions answers
  and any two name answers. Each written file is the domain header for its own class name,
  then a middle part, then the problem header for its own class name, then a final part;
  the middle part (type declarations, predicate stubs, action stubs and the separators)
  and the final part (object, init and goal stubs) are the same text in both files.
\<close>

theorem name_changes_headers_only:
  assumes "init filename1 w1 = (Inr (), w1')" and "init filename2 w2 = (Inr (), w2')"
    and "stdin w1 = name1 # user_types # user_predicates # user_actions # rest1"
    and "stdin w2 = name2 # user_types # user_predicates # user_actions # rest2"
  shows "\<exists>cn1 cn2.
           class_name name1 = Inr cn1 \<and> class_name name2 = Inr cn2
           \<and> files w1' filename1
               = Some (domain_header cn1 @
                   (''\<newline>'' @ section_types (types user_types) @ ''\<newline>'' @
                    section_predicate (predicates user_predicates) @ ''\<newline>'' @
                    section_action (actions user_actions) @ ''\<newline>'') @
                   problem_header cn1 @
                   (''\<newline>'' @ section_object @ ''\<newline>'' @ section_init @ ''\<newline>'' @
                    section_goal))
           \<and> files w2' filename2
               = Some (domain_header cn2 @
                   (''\<newline>'' @ section_types (types user_types) @ ''\<newline>'' @
                    section_predicate (predicates user_predicates) @ ''\<newline>'' @
                    section_action (actions user_actions) @ ''\<newline>'') @
                   problem_header cn2 @
                   (''\<newline>'' @ section_object @ ''\<newline>'' @ section_init @ ''\<newline>'' @
                    section_goal))"
proof -
  from init_outcomes [OF assms(1)] assms(3)
  obtain cn1 where c1: "class_name name1 = Inr cn1"
    and f1: "files w1' = (files w1)(filename1 \<mapsto>
               template cn1 (types user_types) (predicates user_predicates)
                 (actions user_actions))"
    by auto
  from init_outcomes [OF assms(2)] assms(4)
  obtain cn2 where c2: "class_name name2 = Inr cn2"
    and f2: "files w2' = (files w2)(filename2 \<mapsto>
               template cn2 (types user_types) (predicates user_predicates)
                 (actions user_actions))"
    by auto
  from f1 have "files w1' filename1
      = Some (template cn1 (types user_types) (predicates user_predicates)
          (actions user_actions))"
    by simp
  moreover from f2 have "files w2' filename2
      = Some (template cn2 (types user_types) (predicates user_predicates)
          (actions user_actions))"
    by simp
  ultimately show ?thesis
    using c1 c2 by (simp add: template_def)
qed

theorem name_changes_headers_only_witness:
  "init ''d.py'' (fresh_world [''rocket'', ''location'', ''launched'', ''launch''] NoFault)
     = (Inr (),
        snd (init ''d.py'' (fresh_world [''rocket'', ''location'', ''launched'', ''launch''] NoFault)))
   \<and> init ''e.py'' (fresh_world [''lander'', ''location'', ''launched'', ''launch''] NoFault)
     = (Inr (),
        snd (init ''e.py'' (fresh_world [''lander'', ''location'', ''launched'', ''launch''] NoFault)))
   \<and> stdin (fresh_world [''rocket'', ''location'', ''launched'', ''launch''] NoFault)
     = ''rocket'' # ''location'' # ''launched'' # ''launch'' # []
   \<and> stdin (fresh_world [''lander'', ''location'', ''launched'', ''launch''] NoFault)
     = ''lander'' # ''location'' # ''launched'' # ''launch'' # []
   \<and> (\<exists>cn1 cn2.
           class_name ''rocket'' = Inr cn1 \<and> class_name ''lander'' = Inr cn2
           \<and> files (snd (init ''d.py''
                 (fresh_world [''rocket'', ''location'', ''launched'', ''launch''] NoFault))) ''d.py''
               = Some (domain_header cn1 @
                   (''\<newline>'' @ section_types (types ''location'') @ ''\<newline>'' @
                    section_predicate (predicates ''launched'') @ ''\<newline>'' @
                    section_action (actions ''launch'') @ ''\<newline>'') @
                   problem_header cn1 @
                   (''\<newline>'' @ section_object @ ''\<newline>'' @ section_init @ ''\<newline>'' @
                    section_goal))
           \<and> files (snd (init ''e.py''
                 (fresh_world [''lander'', ''location'', ''launched'', ''launch''] NoFault))) ''e.py''
               = Some (domain_header cn2 @
                   (''\<newline>'' @ section_types (types ''location'') @ ''\<newline>'' @
                    section_predicate (predicates ''launched'') @ ''\<newline>'' @
                    section_action (actions ''launch'') @ ''\<newline>'') @
                   problem_header cn2 @
                   (''\<newline>'' @ section_object @ ''\<newline>'' @ section_init @ ''\<newline>'' @
                    section_goal)))"
proof -
  let ?w1 = "fresh_world [''rocket'', ''location'', ''launched'', ''launch''] NoFault"
  let ?w2 = "fresh_world [''lander'', ''location'', ''launched'', ''launch''] NoFault"
  have c1: "class_name ''rocket'' = Inr ''Rocket''" by code_simp
  have c2: "class_name ''lander'' = Inr ''Lander''" by code_simp
  have "fst (init ''d.py'' ?w1) = Inr ()"
    by (simp add: init_def path_exists_def fresh_world_def input_def write_template_def c1)
  then have r1: "init ''d.py'' ?w1 = (Inr (), snd (init ''d.py'' ?w1))"
    by (simp add: prod_eq_iff)
  have "fst (init ''e.py'' ?w2) = Inr ()"
    by (simp add: init_def path_exists_def fresh_world_def input_def write_template_def c2)
  then have r2: "init ''e.py'' ?w2 = (Inr (), snd (init ''e.py'' ?w2))"
    by (simp add: prod_eq_iff)
  have s1: "stdin ?w1 = ''rocket'' # ''location'' # ''launched'' # ''launch'' # []"
    and s2: "stdin ?w2 = ''lander'' # ''location'' # ''launched'' # ''launch'' # []"
    by (simp_all add: fresh_world_def)
  from r1 r2 s1 s2 name_changes_headers_only [OF r1 r2 s1 s2] show ?thesis by blast
qed

end
